theory Spec2Isabelle
  imports Main "HOL-Library.Word"
begin

section \<open>The script harness of yaade: values of the script environment\<close>

text \<open>
  The harness is a JavaScript prelude (\<^verbatim>\<open>src/unnamed/part_000\<close>) around a script body that the
  host splices in. It keeps four globals (\<^verbatim>\<open>__internalLogs\<close>, \<^verbatim>\<open>__internalError\<close>,
  \<^verbatim>\<open>console\<close>, \<^verbatim>\<open>__callback\<close>) and uses three host capabilities
  (\<^verbatim>\<open>__continuation\<close>, \<^verbatim>\<open>__exec\<close>, \<^verbatim>\<open>jasmine\<close>).

  Data values of the script environment. A number is an integer from \<open>- 2 ^ 53\<close> to
  \<open>2 ^ 53 - 1\<close>, read off a 54-bit word with \<open>sint\<close>: each of them is a double, printed with all
  its digits, and the clock readings and request ids are among them. Strings are sequences of
  8-bit code units. \<open>JObj kvs\<close> is an object with the own properties \<open>kvs\<close>, all of them data,
  and the prototype \<^verbatim>\<open>Object.prototype\<close>; the first binding of a key counts. \<open>JErr name message\<close>
  is an \<^verbatim>\<open>Error\<close> object with its \<^verbatim>\<open>name\<close> and \<^verbatim>\<open>message\<close>.
\<close>

type_synonym number = "54 word"

datatype jsval =
    JUndefined
  | JNull
  | JBool bool
  | JNum number
  | JStr string
  | JArr "jsval list"
  | JObj "(string \<times> jsval) list"
  | JErr string string

text \<open>ToBoolean: the test of \<^verbatim>\<open>if (error)\<close>.\<close>

fun truthy :: "jsval \<Rightarrow> bool" where
  "truthy JUndefined = False"
| "truthy JNull = False"
| "truthy (JBool b) = b"
| "truthy (JNum n) = (n \<noteq> 0)"
| "truthy (JStr s) = (s \<noteq> [])"
| "truthy (JArr xs) = True"
| "truthy (JObj kvs) = True"
| "truthy (JErr n m) = True"

fun nullish :: "jsval \<Rightarrow> bool" where
  "nullish JUndefined = True"
| "nullish JNull = True"
| "nullish v = False"

subsection \<open>ToString and \<^verbatim>\<open>Array.prototype.join\<close>\<close>

definition digit_char :: "nat \<Rightarrow> char" where
  "digit_char d = ''0123456789'' ! (d mod 10)"

fun show_nat :: "nat \<Rightarrow> string" where
  "show_nat n = (if n < 10 then [digit_char n] else show_nat (n div 10) @ [digit_char (n mod 10)])"

declare show_nat.simps [simp del]

definition show_int :: "int \<Rightarrow> string" where
  "show_int i = (if i < 0 then CHR ''-'' # show_nat (nat (- i)) else show_nat (nat i))"

text \<open>Number::toString on the numbers of the model: below \<open>10 ^ 21\<close>, so never an exponent.\<close>

definition show_number :: "number \<Rightarrow> string" where
  "show_number n = show_int (sint n)"

text \<open>\<open>sep_concat sep xs\<close> puts \<open>sep\<close> between consecutive strings of \<open>xs\<close>.\<close>

fun sep_concat :: "string \<Rightarrow> string list \<Rightarrow> string" where
  "sep_concat sep [] = []"
| "sep_concat sep [x] = x"
| "sep_concat sep (x # y # ys) = x @ sep @ sep_concat sep (y # ys)"

text \<open>
  \<open>ToString v\<close> is the string conversion of a value, \<open>None\<close> when it throws a \<^verbatim>\<open>TypeError\<close>.
  An array converts by joining its elements with a comma, and in a join an \<^verbatim>\<open>undefined\<close> or
  \<^verbatim>\<open>null\<close> element gives the empty string. An object converts by its \<^verbatim>\<open>toString\<close>: the one of
  \<^verbatim>\<open>Object.prototype\<close>, unless the object has an own property of that name, which is data and
  cannot be called; then \<^verbatim>\<open>valueOf\<close> is tried, which is not callable either or gives the object
  back, and the conversion throws.
\<close>

fun ToString :: "jsval \<Rightarrow> string option" where
  "ToString JUndefined = Some ''undefined''"
| "ToString JNull = Some ''null''"
| "ToString (JBool b) = Some (if b then ''true'' else ''false'')"
| "ToString (JNum n) = Some (show_number n)"
| "ToString (JStr s) = Some s"
| "ToString (JArr xs) =
     map_option (sep_concat '','') (those (map (\<lambda>x. if nullish x then Some [] else ToString x) xs))"
| "ToString (JObj kvs) =
     (if ''toString'' \<in> set (map fst kvs) then None else Some ''[object Object]'')"
| "ToString (JErr n m) = Some (if n = [] then m else if m = [] then n else n @ '': '' @ m)"

text \<open>\<^verbatim>\<open>xs.join(sep)\<close>; the elements are converted from left to right.\<close>

definition join :: "string \<Rightarrow> jsval list \<Rightarrow> string option" where
  "join sep xs =
     map_option (sep_concat sep) (those (map (\<lambda>x. if nullish x then Some [] else ToString x) xs))"

subsection \<open>\<^verbatim>\<open>JSON.stringify\<close> on the log buffer\<close>

text \<open>
  The log buffer is an array of objects \<^verbatim>\<open>{time, message}\<close>, \<^verbatim>\<open>time\<close> a number and
  \<^verbatim>\<open>message\<close> a string (the result of a join). \<^verbatim>\<open>JSON.stringify\<close> writes such an array without
  white space, the keys in insertion order, a string quoted with the escapes of
  \<^verbatim>\<open>QuoteJSONString\<close>.
\<close>

record log_entry =
  time :: number
  message :: string

definition hex_char :: "nat \<Rightarrow> char" where
  "hex_char d = ''0123456789abcdef'' ! (d mod 16)"

definition quote_char :: "char \<Rightarrow> string" where
  "quote_char c =
     (let n = (of_char c :: nat) in
      if n = 0x08 then [CHR 0x5C, CHR ''b'']
      else if n = 0x09 then [CHR 0x5C, CHR ''t'']
      else if n = 0x0A then [CHR 0x5C, CHR ''n'']
      else if n = 0x0C then [CHR 0x5C, CHR ''f'']
      else if n = 0x0D then [CHR 0x5C, CHR ''r'']
      else if n = 0x22 then [CHR 0x5C, CHR 0x22]
      else if n = 0x5C then [CHR 0x5C, CHR 0x5C]
      else if n < 0x20 then
        [CHR 0x5C, CHR ''u'', CHR ''0'', CHR ''0'', hex_char (n div 16), hex_char (n mod 16)]
      else [c])"

definition QuoteJSONString :: "string \<Rightarrow> string" where
  "QuoteJSONString s = CHR 0x22 # concat (map quote_char s) @ [CHR 0x22]"

definition stringify_entry :: "log_entry \<Rightarrow> string" where
  \<open>stringify_entry e =
     ''{"time":'' @ show_number (time e) @ '',"message":'' @ QuoteJSONString (message e) @ ''}''\<close>

definition JSON_stringify :: "log_entry list \<Rightarrow> string" where
  "JSON_stringify es = ''['' @ sep_concat '','' (map stringify_entry es) @ '']''"

section \<open>The state of a run and the host\<close>

text \<open>
  What \<^verbatim>\<open>__callback\<close> can hold: the no-op function of line 4, a function of the script (named by
  a number; what it does when called is given by a table, see below), or a value that is not a
  function (\<^verbatim>\<open>registerCallback\<close> checks nothing).
\<close>

datatype callback_val =
    DefaultNoop
  | Handler nat
  | NonCallable jsval

text \<open>
  What the host can observe of the harness: a call of \<^verbatim>\<open>__continuation.resume()\<close>, a call of
  \<^verbatim>\<open>__exec.exec(requestId, envName)\<close>, and (for the statements about handlers) a call of the
  function held in \<^verbatim>\<open>__callback\<close> with its argument.
\<close>

datatype event =
    EvResume
  | EvExec jsval jsval
  | EvCall callback_val jsval

record state =
  internalLogs :: "log_entry list"
  internalError :: jsval
  console :: jsval
  callback :: callback_val
  trace :: "event list"

text \<open>Lines 1 to 4: the globals as the prelude leaves them.\<close>

definition init :: state where
  "init = \<lparr>internalLogs = [], internalError = JNull, console = JNull,
            callback = DefaultNoop, trace = []\<rparr>"

text \<open>
  The engine: what the harness uses of the JavaScript platform and the source does not fix.
  \<open>JSON_parse\<close> is \<^verbatim>\<open>JSON.parse\<close> (\<open>None\<close> when it throws a \<^verbatim>\<open>SyntaxError\<close>);
  \<open>message_of\<close> is the wording of the errors the engine itself raises: on reading property
  \<open>p\<close> of \<^verbatim>\<open>null\<close> or \<^verbatim>\<open>undefined\<close>, on calling \<open>f\<close> that is not a function, on converting an
  object that has no usable \<^verbatim>\<open>toString\<close>, on parsing a document that is not JSON.
\<close>

datatype fault =
    ReadOfNullish jsval string
  | CallOfNonFunction string
  | ObjectToPrimitive
  | BadJSON string

record engine =
  JSON_parse :: "string \<Rightarrow> jsval option"
  message_of :: "fault \<Rightarrow> string"

definition TypeError :: "engine \<Rightarrow> fault \<Rightarrow> jsval" where
  "TypeError E f = JErr ''TypeError'' (message_of E f)"

definition SyntaxError :: "engine \<Rightarrow> fault \<Rightarrow> jsval" where
  "SyntaxError E f = JErr ''SyntaxError'' (message_of E f)"

text \<open>\<^verbatim>\<open>__continuation.resume()\<close>: the handoff to the host.\<close>

definition resume :: "state \<Rightarrow> state" where
  "resume s = s\<lparr>trace := trace s @ [EvResume]\<rparr>"

definition resumes :: "event list \<Rightarrow> nat" where
  "resumes t = length (filter (\<lambda>e. e = EvResume) t)"

fun is_call :: "event \<Rightarrow> bool" where
  "is_call (EvCall f v) = True"
| "is_call e = False"

definition calls :: "event list \<Rightarrow> event list" where
  "calls t = filter is_call t"

section \<open>The harness functions\<close>

text \<open>Lines 6 to 8.\<close>

definition registerCallback :: "callback_val \<Rightarrow> state \<Rightarrow> state" where
  "registerCallback cb s = s\<lparr>callback := cb\<rparr>"

text \<open>Lines 19 to 21. The function reads the buffer and writes nothing.\<close>

definition getInternalLogs :: "state \<Rightarrow> string \<times> state" where
  "getInternalLogs s = (JSON_stringify (internalLogs s), s)"

text \<open>
  Lines 23 to 29. \<open>now\<close> is what \<^verbatim>\<open>Date.now()\<close> returns at this call. \<^verbatim>\<open>messages\<close> is a rest
  parameter and so always an array: \<^verbatim>\<open>?.\<close> never short-circuits. The join is evaluated before
  the \<^verbatim>\<open>push\<close>: when it throws, the call throws (\<open>Inl\<close>) and nothing is appended.
\<close>

definition log :: "engine \<Rightarrow> number \<Rightarrow> jsval list \<Rightarrow> state \<Rightarrow> jsval + state" where
  "log E now messages s =
     (case join '' '' messages of
        None \<Rightarrow> Inl (TypeError E ObjectToPrimitive)
      | Some m \<Rightarrow> Inr (s\<lparr>internalLogs := internalLogs s @ [\<lparr>time = now, message = m\<rparr>]\<rparr>))"

text \<open>
  Lines 31 to 41. A promise is pending or settled, and \<^verbatim>\<open>resolve\<close> and \<^verbatim>\<open>reject\<close> do nothing
  to a settled one. \<open>onComplete\<close> is the function handed to the host (lines 33 to 39);
  \<open>firings\<close> are the calls the host makes of it, in order, each with \<open>(result, error)\<close>. Results
  are data, not promises.
\<close>

datatype promise = Pending | Fulfilled jsval | Rejected jsval

definition resolve :: "jsval \<Rightarrow> promise \<Rightarrow> promise" where
  "resolve v p = (case p of Pending \<Rightarrow> Fulfilled v | _ \<Rightarrow> p)"

definition reject :: "jsval \<Rightarrow> promise \<Rightarrow> promise" where
  "reject e p = (case p of Pending \<Rightarrow> Rejected e | _ \<Rightarrow> p)"

definition onComplete :: "jsval \<Rightarrow> jsval \<Rightarrow> promise \<Rightarrow> promise" where
  "onComplete result error p = (if truthy error then reject error p else resolve result p)"

definition exec :: "jsval \<Rightarrow> jsval \<Rightarrow> (jsval \<times> jsval) list \<Rightarrow> state \<Rightarrow> promise \<times> state" where
  "exec requestId envName firings s =
     (foldl (\<lambda>p (result, error). onComplete result error p) Pending firings,
      s\<lparr>trace := trace s @ [EvExec requestId envName]\<rparr>)"

section \<open>Script bodies and handlers\<close>

text \<open>
  The script body is text spliced into line 46, and a handler is a function of that text. What
  the harness sees of either is the sequence of its uses of the script-observable surface, up
  to the point where it falls off its end, returns, throws out of itself, or suspends on a
  deferred value that never settles:
  \<^item> \<open>Log now messages\<close>: \<^verbatim>\<open>log(...messages)\<close>, at clock reading \<open>now\<close>, not inside a
    \<^verbatim>\<open>try\<close> of the script: what the call throws, the body throws;
  \<^item> \<open>RegisterCallback cb\<close>: \<^verbatim>\<open>registerCallback(cb)\<close>;
  \<^item> \<open>AwaitExec requestId envName firings\<close>: \<^verbatim>\<open>await exec(requestId, envName)\<close>, the host
    answering with \<open>firings\<close>;
  \<^item> \<open>ConsoleCall m\<close>: \<^verbatim>\<open>console.m(...)\<close>;
  \<^item> \<open>Throw v\<close>: \<^verbatim>\<open>throw v\<close>, not caught by the script itself;
  \<^item> \<open>Return\<close>: a \<^verbatim>\<open>return\<close> at the top level of the body;
  \<^item> \<open>Suspend\<close>: an \<^verbatim>\<open>await\<close> that is never resumed.
  Scripts that assign to the harness's globals or call \<^verbatim>\<open>__continuation\<close> themselves are outside
  this surface.
\<close>

datatype action =
    Log number "jsval list"
  | RegisterCallback callback_val
  | AwaitExec jsval jsval "(jsval \<times> jsval) list"
  | ConsoleCall string
  | Throw jsval
  | Return
  | Suspend

datatype completion = Done | Returned | Thrown jsval | Hang

text \<open>
  \<^verbatim>\<open>console.m(...)\<close> with \<open>obj\<close> the value of \<^verbatim>\<open>console\<close>, a data value: reading a property of
  \<^verbatim>\<open>null\<close> or \<^verbatim>\<open>undefined\<close> throws, and a property of any other data value is not a function.
  Either way a \<^verbatim>\<open>TypeError\<close>.
\<close>

definition method_call_error :: "engine \<Rightarrow> jsval \<Rightarrow> string \<Rightarrow> jsval" where
  "method_call_error E obj m =
     (if nullish obj then TypeError E (ReadOfNullish obj m)
      else TypeError E (CallOfNonFunction (''console.'' @ m)))"

fun run_body :: "engine \<Rightarrow> action list \<Rightarrow> state \<Rightarrow> completion \<times> state" where
  "run_body E [] s = (Done, s)"
| "run_body E (Log now messages # rest) s =
     (case log E now messages s of
        Inl err \<Rightarrow> (Thrown err, s)
      | Inr s' \<Rightarrow> run_body E rest s')"
| "run_body E (RegisterCallback cb # rest) s = run_body E rest (registerCallback cb s)"
| "run_body E (AwaitExec requestId envName firings # rest) s =
     (case exec requestId envName firings s of
        (Pending, s') \<Rightarrow> (Hang, s')
      | (Fulfilled v, s') \<Rightarrow> run_body E rest s'
      | (Rejected e, s') \<Rightarrow> (Thrown e, s'))"
| "run_body E (ConsoleCall m # rest) s = (Thrown (method_call_error E (console s) m), s)"
| "run_body E (Throw v # rest) s = (Thrown v, s)"
| "run_body E (Return # rest) s = (Returned, s)"
| "run_body E (Suspend # rest) s = (Hang, s)"

text \<open>
  \<^verbatim>\<open>finally { __continuation.resume(); }\<close> of an async function (lines 14 to 16 and 51 to 53):
  the block is reached when the \<^verbatim>\<open>try\<close> (and \<^verbatim>\<open>catch\<close>) before it completes, and an error
  that is still in flight then rejects the function's promise.
\<close>

fun finally_resume :: "completion \<times> state \<Rightarrow> promise \<times> state" where
  "finally_resume (Hang, s) = (Pending, s)"
| "finally_resume (Thrown e, s) = (Rejected e, resume s)"
| "finally_resume (Done, s) = (Fulfilled JUndefined, resume s)"
| "finally_resume (Returned, s) = (Fulfilled JUndefined, resume s)"

text \<open>
  Line 13, \<^verbatim>\<open>await __callback(res)\<close>. \<open>H h res\<close> is what the script's function \<open>h\<close> does when
  called with \<open>res\<close>.
\<close>

definition call_callback ::
  "engine \<Rightarrow> (nat \<Rightarrow> jsval \<Rightarrow> action list) \<Rightarrow> jsval \<Rightarrow> state \<Rightarrow> completion \<times> state" where
  "call_callback E H res s =
     (case callback s of
        DefaultNoop \<Rightarrow> (Done, s\<lparr>trace := trace s @ [EvCall DefaultNoop res]\<rparr>)
      | Handler h \<Rightarrow> run_body E (H h res) (s\<lparr>trace := trace s @ [EvCall (Handler h) res]\<rparr>)
      | NonCallable v \<Rightarrow> (Thrown (TypeError E (CallOfNonFunction ''__callback'')), s))"

text \<open>Lines 10 to 17. \<^verbatim>\<open>JSON.parse\<close> is called before the \<^verbatim>\<open>try\<close>.\<close>

definition doCallback ::
  "engine \<Rightarrow> (nat \<Rightarrow> jsval \<Rightarrow> action list) \<Rightarrow> string \<Rightarrow> state \<Rightarrow> promise \<times> state" where
  "doCallback E H resString s =
     (case JSON_parse E resString of
        None \<Rightarrow> (Rejected (SyntaxError E (BadJSON resString)), s)
      | Some res \<Rightarrow> finally_resume (call_callback E H res s))"

text \<open>
  \<^verbatim>\<open>e.message\<close> (line 50): a \<^verbatim>\<open>TypeError\<close> when \<open>e\<close> is \<^verbatim>\<open>null\<close> or \<^verbatim>\<open>undefined\<close>, else the
  property, \<^verbatim>\<open>undefined\<close> when there is none. In \<open>JObj kvs\<close> the first binding of a key counts.
\<close>

fun message_prop :: "jsval \<Rightarrow> jsval" where
  "message_prop (JErr n m) = JStr m"
| "message_prop (JObj kvs) = (case map_of kvs ''message'' of Some v \<Rightarrow> v | None \<Rightarrow> JUndefined)"
| "message_prop v = JUndefined"

definition read_message :: "engine \<Rightarrow> jsval \<Rightarrow> jsval + jsval" where
  "read_message E e =
     (if nullish e then Inl (TypeError E (ReadOfNullish e ''message'')) else Inr (message_prop e))"

text \<open>
  Lines 43 to 54, the run driver. \<open>body\<close> is the script body; \<open>specs\<close> is what
  \<^verbatim>\<open>await jasmine.getEnv().execute()\<close> does, as seen by the harness. The specification run is
  reached when the body falls off its end, not when it returns or throws.

  An entry point is followed from its call to the settling of its promise; \<open>Pending\<close> is the
  promise of an entry point that stays suspended. A delivery that the host makes while a run
  is suspended falls between two actions of the body; the statements below are about one
  entry point at a time, or about entry points called one after the other.
\<close>

definition try_block :: "engine \<Rightarrow> action list \<Rightarrow> action list \<Rightarrow> state \<Rightarrow> completion \<times> state" where
  "try_block E body specs s =
     (case run_body E body s of
        (Done, s') \<Rightarrow> run_body E specs s'
      | (c, s') \<Rightarrow> (c, s'))"

fun catch_block :: "engine \<Rightarrow> completion \<times> state \<Rightarrow> completion \<times> state" where
  "catch_block E (Thrown e, s) =
     (case read_message E e of
        Inl err \<Rightarrow> (Thrown err, s)
      | Inr m \<Rightarrow> (Done, s\<lparr>internalError := m\<rparr>))"
| "catch_block E (Done, s) = (Done, s)"
| "catch_block E (Returned, s) = (Returned, s)"
| "catch_block E (Hang, s) = (Hang, s)"

definition run_driver :: "engine \<Rightarrow> action list \<Rightarrow> action list \<Rightarrow> state \<Rightarrow> promise \<times> state" where
  "run_driver E body specs s = finally_resume (catch_block E (try_block E body specs s))"


text \<open>
  A sequence of \<^verbatim>\<open>log\<close> calls, each with its clock reading and its arguments, made one after
  the other whatever becomes of the error that one of them throws.
\<close>

fun log_calls :: "engine \<Rightarrow> (number \<times> jsval list) list \<Rightarrow> state \<Rightarrow> state" where
  "log_calls E [] s = s"
| "log_calls E ((now, messages) # cs) s =
     log_calls E cs (case log E now messages s of Inl err \<Rightarrow> s | Inr s' \<Rightarrow> s')"

section \<open>An engine for the examples\<close>

text \<open>
  The statements below hold for every engine. Their examples are evaluated with this one:
  \<open>json_parse\<close> reads the JSON grammar (ECMA-404) for documents whose numbers are integer
  literals of at most 15 digits and whose four-digit escapes stay below 256; on a numeral
  with a fraction or an exponent, on a longer numeral and on a larger escape it gives \<open>None\<close>
  although \<^verbatim>\<open>JSON.parse\<close> accepts them, so they are not used in any example. The first argument of \<open>parse_value\<close> bounds the recursion. In an
  object a repeated key keeps its first position and its last value.
\<close>

definition is_ws :: "char \<Rightarrow> bool" where
  "is_ws c = (c = CHR 0x20 \<or> c = CHR 0x09 \<or> c = CHR 0x0A \<or> c = CHR 0x0D)"

definition skip_ws :: "string \<Rightarrow> string" where
  "skip_ws cs = dropWhile is_ws cs"

definition is_digit :: "char \<Rightarrow> bool" where
  "is_digit c = (48 \<le> (of_char c :: nat) \<and> (of_char c :: nat) \<le> 57)"

definition digits_val :: "string \<Rightarrow> nat" where
  "digits_val ds = foldl (\<lambda>a c. 10 * a + (of_char c - 48)) 0 ds"

definition hex_val :: "char \<Rightarrow> nat option" where
  "hex_val c =
     (let n = (of_char c :: nat) in
      if 48 \<le> n \<and> n \<le> 57 then Some (n - 48)
      else if 97 \<le> n \<and> n \<le> 102 then Some (n - 87)
      else if 65 \<le> n \<and> n \<le> 70 then Some (n - 55)
      else None)"

definition parse_number :: "string \<Rightarrow> (jsval \<times> string) option" where
  "parse_number cs =
     (let neg = (cs \<noteq> [] \<and> hd cs = CHR ''-'');
          ds0 = (if neg then tl cs else cs);
          ds = takeWhile is_digit ds0;
          rest = dropWhile is_digit ds0
      in if ds = [] \<or> (1 < length ds \<and> hd ds = CHR ''0'') then None
         else if rest \<noteq> [] \<and> hd rest \<in> set ''.eE'' then None
         else if 15 < length ds then None
         else Some (JNum (if neg then - of_nat (digits_val ds) else of_nat (digits_val ds)), rest))"

definition unescape :: "char \<Rightarrow> char option" where
  "unescape e =
     (if e = CHR 0x22 then Some (CHR 0x22)
      else if e = CHR 0x5C then Some (CHR 0x5C)
      else if e = CHR ''/'' then Some (CHR ''/'')
      else if e = CHR ''b'' then Some (CHR 0x08)
      else if e = CHR ''f'' then Some (CHR 0x0C)
      else if e = CHR ''n'' then Some (CHR 0x0A)
      else if e = CHR ''r'' then Some (CHR 0x0D)
      else if e = CHR ''t'' then Some (CHR 0x09)
      else None)"

definition unicode_escape :: "string \<Rightarrow> char option" where
  "unicode_escape hs =
     (case map hex_val hs of
        [Some a, Some b, Some c, Some d] \<Rightarrow>
          (if a = 0 \<and> b = 0 then Some (char_of (16 * c + d)) else None)
      | _ \<Rightarrow> None)"

fun parse_chars :: "string \<Rightarrow> (string \<times> string) option" where
  "parse_chars [] = None"
| "parse_chars (c # cs) =
     (if c = CHR 0x22 then Some ([], cs)
      else if c = CHR 0x5C then
        (case cs of
           [] \<Rightarrow> None
         | e # r \<Rightarrow>
            (if e = CHR ''u'' then
               (case unicode_escape (take 4 r) of
                  None \<Rightarrow> None
                | Some ch \<Rightarrow> map_option (\<lambda>(str, r'). (ch # str, r')) (parse_chars (drop 4 r)))
             else
               (case unescape e of
                  None \<Rightarrow> None
                | Some ch \<Rightarrow> map_option (\<lambda>(str, r'). (ch # str, r')) (parse_chars r))))
      else if (of_char c :: nat) < 0x20 then None
      else map_option (\<lambda>(str, r'). (c # str, r')) (parse_chars cs))"

fun obj_put :: "string \<Rightarrow> jsval \<Rightarrow> (string \<times> jsval) list \<Rightarrow> (string \<times> jsval) list" where
  "obj_put k v [] = [(k, v)]"
| "obj_put k v (p # ps) = (if fst p = k then (k, v) # ps else p # obj_put k v ps)"

definition starts_with :: "string \<Rightarrow> string \<Rightarrow> bool" where
  "starts_with p cs = (take (length p) cs = p)"

fun parse_value :: "nat \<Rightarrow> string \<Rightarrow> (jsval \<times> string) option"
  and parse_elements :: "nat \<Rightarrow> jsval list \<Rightarrow> string \<Rightarrow> (jsval list \<times> string) option"
  and parse_members ::
    "nat \<Rightarrow> (string \<times> jsval) list \<Rightarrow> string \<Rightarrow> ((string \<times> jsval) list \<times> string) option"
where
  "parse_value 0 cs = None"
| "parse_value (Suc k) cs =
     (case skip_ws cs of
        [] \<Rightarrow> None
      | c # r \<Rightarrow>
         (if c = CHR ''{'' then
            (if starts_with ''}'' (skip_ws r) then Some (JObj [], tl (skip_ws r))
             else map_option (\<lambda>(kvs, r'). (JObj kvs, r')) (parse_members k [] r))
          else if c = CHR ''['' then
            (if starts_with '']'' (skip_ws r) then Some (JArr [], tl (skip_ws r))
             else map_option (\<lambda>(vs, r'). (JArr vs, r')) (parse_elements k [] r))
          else if c = CHR 0x22 then map_option (\<lambda>(str, r'). (JStr str, r')) (parse_chars r)
          else if starts_with ''true'' (c # r) then Some (JBool True, drop 4 (c # r))
          else if starts_with ''false'' (c # r) then Some (JBool False, drop 5 (c # r))
          else if starts_with ''null'' (c # r) then Some (JNull, drop 4 (c # r))
          else parse_number (c # r)))"
| "parse_elements 0 acc cs = None"
| "parse_elements (Suc k) acc cs =
     (case parse_value k cs of
        None \<Rightarrow> None
      | Some (v, r) \<Rightarrow>
         (case skip_ws r of
            [] \<Rightarrow> None
          | c # r' \<Rightarrow>
             (if c = CHR '','' then parse_elements k (acc @ [v]) r'
              else if c = CHR '']'' then Some (acc @ [v], r')
              else None)))"
| "parse_members 0 acc cs = None"
| "parse_members (Suc k) acc cs =
     (case skip_ws cs of
        [] \<Rightarrow> None
      | q # r \<Rightarrow>
         (if q \<noteq> CHR 0x22 then None
          else
            (case parse_chars r of
               None \<Rightarrow> None
             | Some (key, r1) \<Rightarrow>
                (if \<not> starts_with '':'' (skip_ws r1) then None
                 else
                   (case parse_value k (tl (skip_ws r1)) of
                      None \<Rightarrow> None
                    | Some (v, r2) \<Rightarrow>
                       (case skip_ws r2 of
                          [] \<Rightarrow> None
                        | c # r3 \<Rightarrow>
                           (if c = CHR '','' then parse_members k (obj_put key v acc) r3
                            else if c = CHR ''}'' then Some (obj_put key v acc, r3)
                            else None)))))))"

definition json_parse :: "string \<Rightarrow> jsval option" where
  "json_parse cs =
     (case parse_value (2 * length cs + 2) cs of
        None \<Rightarrow> None
      | Some (v, r) \<Rightarrow> (if skip_ws r = [] then Some v else None))"

text \<open>
  The wording of the engine's own errors, here that of V8. For a document that is not JSON the
  wording of V8 depends on where the document breaks; this is the one for a document that
  ends too early, and the examples use no other. No statement depends on any wording.
\<close>

fun example_message :: "fault \<Rightarrow> string" where
  "example_message (ReadOfNullish v p) =
     ''Cannot read properties of '' @ (if v = JNull then ''null'' else ''undefined'')
       @ '' (reading '' @ [CHR 0x27] @ p @ [CHR 0x27] @ '')''"
| "example_message (CallOfNonFunction f) = f @ '' is not a function''"
| "example_message ObjectToPrimitive = ''Cannot convert object to primitive value''"
| "example_message (BadJSON cs) = ''Unexpected end of JSON input''"

definition example_engine :: engine where
  "example_engine = \<lparr>JSON_parse = json_parse, message_of = example_message\<rparr>"

section \<open>Notions used in the statements\<close>

text \<open>
  The entry that the \<^verbatim>\<open>log\<close> call \<open>c\<close> appends, if it appends one: its time is the clock
  reading of the call, its message the join of the arguments.
\<close>

definition entry_of :: "number \<times> jsval list \<Rightarrow> log_entry option" where
  "entry_of c = map_option (\<lambda>m. \<lparr>time = fst c, message = m\<rparr>) (join '' '' (snd c))"

text \<open>A body without \<^verbatim>\<open>log\<close> calls.\<close>

fun is_log :: "action \<Rightarrow> bool" where
  "is_log (Log now messages) = True"
| "is_log a = False"

definition no_log :: "action list \<Rightarrow> bool" where
  "no_log as = (filter is_log as = [])"




text \<open>\<open>n\<close> calls of \<^verbatim>\<open>__getInternalLogs\<close> in a row: the strings returned and the state left.\<close>

fun serialize_times :: "nat \<Rightarrow> state \<Rightarrow> string list \<times> state" where
  "serialize_times 0 s = ([], s)"
| "serialize_times (Suc n) s =
     (case getInternalLogs s of
        (doc, s') \<Rightarrow> (case serialize_times n s' of (docs, s'') \<Rightarrow> (doc # docs, s'')))"

text \<open>
  Handlers for the examples: \<open>0\<close> logs the \<^verbatim>\<open>value\<close> property of its argument, \<open>1\<close> logs and
  then throws, \<open>2\<close> registers handler \<open>0\<close> in its place, the others do nothing.
\<close>

fun value_prop :: "jsval \<Rightarrow> jsval" where
  "value_prop (JObj kvs) = (case map_of kvs ''value'' of Some v \<Rightarrow> v | None \<Rightarrow> JUndefined)"
| "value_prop v = JUndefined"

fun example_handlers :: "nat \<Rightarrow> jsval \<Rightarrow> action list" where
  "example_handlers 0 res = [Log 1700000000000 [value_prop res]]"
| "example_handlers (Suc 0) res = [Log 1700000000001 [JStr ''got'', res], Throw (JErr ''Error'' ''boom'')]"
| "example_handlers (Suc (Suc 0)) res = [RegisterCallback (Handler 0)]"
| "example_handlers h res = []"

section \<open>What a body or a handler can change\<close>

text \<open>
  A body or a handler appends log entries, replaces the callback and calls the bridge. It never
  hands control to the host, never calls the callback, and leaves the error slot and the
  console binding alone.
\<close>

lemma run_body_frame:
  "resumes (trace (snd (run_body E as s))) = resumes (trace s)
   \<and> calls (trace (snd (run_body E as s))) = calls (trace s)
   \<and> console (snd (run_body E as s)) = console s
   \<and> internalError (snd (run_body E as s)) = internalError s"
proof (induction as arbitrary: s)
  case Nil
  show ?case by simp
next
  case (Cons a as)
  show ?case
  proof (cases a)
    case (AwaitExec r n fs)
    then show ?thesis using Cons.IH [of "snd (exec r n fs s)"]
      by (cases "fst (exec r n fs s)")
         (simp_all add: exec_def resumes_def calls_def split: prod.splits)
  next
    case (Log now ms)
    then show ?thesis
      by (cases "join '' '' ms") (simp_all add: Cons.IH log_def)
  qed (simp_all add: Cons.IH registerCallback_def)
qed

lemmas run_body_console = run_body_frame [THEN conjunct2, THEN conjunct2, THEN conjunct1]
lemmas run_body_internalError = run_body_frame [THEN conjunct2, THEN conjunct2, THEN conjunct2]


text \<open>The log buffer is written by \<^verbatim>\<open>log\<close> only.\<close>

lemma run_body_no_log:
  "no_log as \<Longrightarrow> internalLogs (snd (run_body E as s)) = internalLogs s"
proof (induction as arbitrary: s)
  case Nil
  show ?case by simp
next
  case (Cons a as)
  from Cons.prems have nl: "no_log as" and na: "\<not> is_log a"
    by (auto simp: no_log_def split: if_splits)
  show ?case
  proof (cases a)
    case (AwaitExec r n fs)
    then show ?thesis using Cons.IH [OF nl, of "snd (exec r n fs s)"]
      by (cases "fst (exec r n fs s)") (simp_all add: exec_def split: prod.splits)
  next
    case (Log now ms)
    with na show ?thesis by simp
  qed (simp_all add: Cons.IH [OF nl] registerCallback_def)
qed

text \<open>A body in two parts: the second part runs when the first falls off its end.\<close>

lemma run_body_append:
  "run_body E (pre @ rest) s =
     (case run_body E pre s of (Done, s1) \<Rightarrow> run_body E rest s1 | (c, s1) \<Rightarrow> (c, s1))"
proof (induction pre arbitrary: s)
  case Nil
  show ?case by simp
next
  case (Cons a pre)
  show ?case
  proof (cases a)
    case (AwaitExec r n fs)
    then show ?thesis using Cons.IH [of "snd (exec r n fs s)"]
      by (cases "fst (exec r n fs s)") (simp_all add: exec_def split: prod.splits)
  next
    case (Log now ms)
    then show ?thesis
      by (cases "log E now ms s") (simp_all add: Cons.IH)
  qed (simp_all add: Cons.IH)
qed

subsection \<open>Sequences of \<^verbatim>\<open>log\<close> calls\<close>

lemma log_calls_frame:
  "log_calls E cs s = s\<lparr>internalLogs := internalLogs s @ List.map_filter entry_of cs\<rparr>"
proof (induction E cs s rule: log_calls.induct)
  case (1 E s)
  show ?case by (simp add: List.map_filter_simps)
next
  case (2 E now messages cs s)
  then show ?case
    by (cases "join '' '' messages") (simp_all add: log_def entry_of_def List.map_filter_simps)
qed

lemma log_calls_logs:
  "internalLogs (log_calls E cs s) = internalLogs s @ List.map_filter entry_of cs"
  by (simp add: log_calls_frame)

lemma serialize_times_pure:
  "serialize_times n s = (replicate n (JSON_stringify (internalLogs s)), s)"
  by (induction n) (simp_all add: getInternalLogs_def)

subsection \<open>The guaranteed handoff\<close>

lemma finally_resume_once: "c \<noteq> Hang \<Longrightarrow> snd (finally_resume (c, s)) = resume s"
  by (cases c) simp_all

lemma finally_resume_Hang: "finally_resume (Hang, s) = (Pending, s)"
  by simp

lemma catch_block_trace: "trace (snd (catch_block E r)) = trace (snd r)"
  by (cases "(E, r)" rule: catch_block.cases) (simp_all split: sum.splits)

lemma catch_block_Hang: "fst (catch_block E r) = Hang \<longleftrightarrow> fst r = Hang"
  by (cases "(E, r)" rule: catch_block.cases) (simp_all split: sum.splits)

lemma try_block_frame:
  "resumes (trace (snd (try_block E body specs s))) = resumes (trace s)
   \<and> console (snd (try_block E body specs s)) = console s
   \<and> internalError (snd (try_block E body specs s)) = internalError s"
proof (cases "run_body E body s")
  case (Pair c s1)
  then have "resumes (trace s1) = resumes (trace s) \<and> console s1 = console s
      \<and> internalError s1 = internalError s"
    using run_body_frame [of E body s] by simp
  with Pair show ?thesis
    by (cases c) (simp_all add: try_block_def run_body_frame)
qed

text \<open>
  The run driver hands over exactly once, as its last action, whenever the body and the
  specification run complete, normally or not.
\<close>

lemma run_driver_resumes_once:
  assumes "fst (try_block E body specs s) \<noteq> Hang"
  shows "resumes (trace (snd (run_driver E body specs s))) = resumes (trace s) + 1
    \<and> last (trace (snd (run_driver E body specs s))) = EvResume"
proof -
  obtain c s1 where r: "catch_block E (try_block E body specs s) = (c, s1)"
    by (cases "catch_block E (try_block E body specs s)")
  with assms have c: "c \<noteq> Hang"
    using catch_block_Hang [of E "try_block E body specs s"] by simp
  have t: "trace s1 = trace (snd (try_block E body specs s))"
    using catch_block_trace [of E "try_block E body specs s"] r by simp
  have "snd (run_driver E body specs s) = resume s1"
    using finally_resume_once [OF c] r by (simp add: run_driver_def)
  then show ?thesis
    using t try_block_frame [of E body specs s] by (simp add: resume_def resumes_def)
qed

text \<open>A thrown value other than \<^verbatim>\<open>null\<close> and \<^verbatim>\<open>undefined\<close> is caught, and nothing is rejected.\<close>

lemma run_driver_captures:
  assumes "try_block E body specs s = (Thrown e, s1)" and "\<not> nullish e"
  shows "run_driver E body specs s =
    (Fulfilled JUndefined, resume (s1\<lparr>internalError := message_prop e\<rparr>))"
  using assms by (simp add: run_driver_def read_message_def)

lemma run_driver_success:
  assumes "try_block E body specs s = (c, s1)" and "c = Done \<or> c = Returned"
  shows "run_driver E body specs s = (Fulfilled JUndefined, resume s1)"
  using assms by (auto simp: run_driver_def)

subsection \<open>The call of the callback\<close>



subsection \<open>Deliveries\<close>

lemma finally_resume_frame:
  "callback (snd (finally_resume r)) = callback (snd r)
   \<and> calls (trace (snd (finally_resume r))) = calls (trace (snd r))
   \<and> console (snd (finally_resume r)) = console (snd r)"
  by (cases r rule: finally_resume.cases) (simp_all add: resume_def calls_def)




lemma doCallback_console: "console (snd (doCallback E H p s)) = console s"
proof (cases "JSON_parse E p")
  case None
  then show ?thesis by (simp add: doCallback_def)
next
  case (Some v)
  have "console (snd (call_callback E H v s)) = console s"
    by (cases "callback s") (simp_all add: call_callback_def run_body_console)
  with Some show ?thesis
    by (simp add: doCallback_def finally_resume_frame)
qed

lemma run_driver_console: "console (snd (run_driver E body specs s)) = console s"
proof -
  have "console (snd (catch_block E r)) = console (snd r)" for r
    by (cases "(E, r)" rule: catch_block.cases) (simp_all split: sum.splits)
  then show ?thesis
    by (simp add: run_driver_def finally_resume_frame try_block_frame)
qed

section \<open>The serialized buffer determines the buffer\<close>

text \<open>
  \<^verbatim>\<open>JSON.stringify\<close> is injective on log buffers: the host can read the entries, and their
  order, off the document. A number ends at the first character that is not a digit, and a
  quoted string is read back by \<open>parse_chars\<close>.
\<close>

lemma digit_char_code: "d < 10 \<Longrightarrow> (of_char (digit_char d) :: nat) = 48 + d"
proof -
  assume "d < 10"
  then have "d = 0 \<or> d = 1 \<or> d = 2 \<or> d = 3 \<or> d = 4 \<or> d = 5 \<or> d = 6 \<or> d = 7
      \<or> d = 8 \<or> d = 9"
    by arith
  then show ?thesis
    by (elim disjE) (simp_all add: digit_char_def)
qed

lemma is_digit_digit_char: "d < 10 \<Longrightarrow> is_digit (digit_char d)"
  by (simp add: is_digit_def digit_char_code)

lemma show_nat_digits: "c \<in> set (show_nat n) \<Longrightarrow> is_digit c"
proof (induction n rule: show_nat.induct)
  case (1 n)
  show ?case
  proof (cases "n < 10")
    case True
    with "1.prems" show ?thesis
      by (simp add: show_nat.simps [of n] is_digit_digit_char)
  next
    case False
    with "1.prems" "1.IH" show ?thesis
      by (auto simp: show_nat.simps [of n] is_digit_digit_char)
  qed
qed

lemma digits_val_snoc: "digits_val (ds @ [c]) = 10 * digits_val ds + (of_char c - 48)"
  by (simp add: digits_val_def)

lemma digits_val_show_nat: "digits_val (show_nat n) = n"
proof (induction n rule: show_nat.induct)
  case (1 n)
  show ?case
  proof (cases "n < 10")
    case True
    then show ?thesis
      by (simp add: show_nat.simps [of n] digits_val_def digit_char_code)
  next
    case False
    with "1.IH" show ?thesis
      by (simp add: show_nat.simps [of n] digits_val_snoc digit_char_code)
  qed
qed

lemma show_nat_inj: "show_nat a = show_nat b \<Longrightarrow> a = b"
  by (metis digits_val_show_nat)

lemma show_nat_nonempty: "show_nat n \<noteq> []"
  by (subst show_nat.simps) simp

text \<open>A run of digits is delimited by the first character that is not a digit.\<close>

lemma delimited_run:
  assumes "xs @ c # r = ys @ d # r'"
    and "\<forall>x \<in> set xs. P x" and "\<forall>y \<in> set ys. P y" and "\<not> P c" and "\<not> P d"
  shows "xs = ys \<and> c # r = d # r'"
proof -
  have "xs = takeWhile P (xs @ c # r)"
    using assms(2,4) by (simp add: takeWhile_append2)
  also have "\<dots> = takeWhile P (ys @ d # r')"
    using assms(1) by simp
  also have "\<dots> = ys"
    using assms(3,5) by (simp add: takeWhile_append2)
  finally have "xs = ys" .
  with assms(1) show ?thesis by simp
qed

lemma show_int_delimited:
  assumes "show_int a @ c # r = show_int b @ d # r'" and "\<not> is_digit c" and "\<not> is_digit d"
  shows "a = b \<and> c # r = d # r'"
proof -
  have minus: "\<not> is_digit (CHR ''-'')"
    by (simp add: is_digit_def)
  have hd_digit: "is_digit (hd (show_nat n))" for n
    using show_nat_digits [of "hd (show_nat n)" n] show_nat_nonempty [of n] by simp
  have run: "show_nat m @ c # r = show_nat n @ d # r' \<Longrightarrow> m = n \<and> c # r = d # r'" for m n
    using delimited_run [of "show_nat m" c r "show_nat n" d r' is_digit] assms(2,3)
      show_nat_digits show_nat_inj by blast
  show ?thesis
  proof (cases "a < 0"; cases "b < 0")
    assume neg: "a < 0" "b < 0"
    with assms(1) run [of "nat (- a)" "nat (- b)"] have "nat (- a) = nat (- b) \<and> c # r = d # r'"
      by (simp add: show_int_def)
    with neg show ?thesis by auto
  next
    assume "a < 0" "\<not> b < 0"
    with assms(1) have "CHR ''-'' = hd (show_nat (nat b))"
      using show_nat_nonempty [of "nat b"] by (cases "show_nat (nat b)") (simp_all add: show_int_def)
    with hd_digit [of "nat b"] minus show ?thesis by simp
  next
    assume "\<not> a < 0" "b < 0"
    with assms(1) have "CHR ''-'' = hd (show_nat (nat a))"
      using show_nat_nonempty [of "nat a"] by (cases "show_nat (nat a)") (simp_all add: show_int_def)
    with hd_digit [of "nat a"] minus show ?thesis by simp
  next
    assume pos: "\<not> a < 0" "\<not> b < 0"
    with assms(1) run [of "nat a" "nat b"] have "nat a = nat b \<and> c # r = d # r'"
      by (simp add: show_int_def)
    with pos show ?thesis by auto
  qed
qed

lemma hex_val_hex_char: "k < 16 \<Longrightarrow> hex_val (hex_char k) = Some k"
proof -
  assume "k < 16"
  then have "k = 0 \<or> k = 1 \<or> k = 2 \<or> k = 3 \<or> k = 4 \<or> k = 5 \<or> k = 6 \<or> k = 7
      \<or> k = 8 \<or> k = 9 \<or> k = 10 \<or> k = 11 \<or> k = 12 \<or> k = 13 \<or> k = 14 \<or> k = 15"
    by arith
  then show ?thesis
    by (elim disjE) (simp_all add: hex_char_def hex_val_def)
qed

lemma char_by_code: "(of_char c :: nat) = of_char d \<Longrightarrow> c = d"
  by simp

text \<open>What \<open>quote_char\<close> writes for a character, \<open>parse_chars\<close> reads as that character.\<close>

lemma parse_chars_quote_char:
  "parse_chars (quote_char c @ rest) = map_option (\<lambda>(str, r'). (c # str, r')) (parse_chars rest)"
proof -
  let ?n = "of_char c :: nat"
  consider (short) "?n \<in> {0x08, 0x09, 0x0A, 0x0C, 0x0D, 0x22, 0x5C}"
    | (long) "?n < 0x20" "?n \<notin> {0x08, 0x09, 0x0A, 0x0C, 0x0D}"
    | (plain) "\<not> ?n < 0x20" "?n \<noteq> 0x22" "?n \<noteq> 0x5C"
    by auto
  then show ?thesis
  proof cases
    case short
    then have "c \<in> {CHR 0x08, CHR 0x09, CHR 0x0A, CHR 0x0C, CHR 0x0D, CHR 0x22, CHR 0x5C}"
      by (auto intro: char_by_code)
    then show ?thesis
      by (auto simp: quote_char_def unescape_def)
  next
    case long
    have h: "hex_val (hex_char (?n div 16)) = Some (?n div 16)"
      "hex_val (hex_char (?n mod 16)) = Some (?n mod 16)"
      using long(1) by (simp_all add: hex_val_hex_char)
    have z: "hex_val (CHR ''0'') = Some 0"
      by (simp add: hex_val_def)
    have c: "char_of (16 * (?n div 16) + ?n mod 16) = c"
      by simp
    have "quote_char c =
        [CHR 0x5C, CHR ''u'', CHR ''0'', CHR ''0'', hex_char (?n div 16), hex_char (?n mod 16)]"
      using long by (simp add: quote_char_def Let_def)
    then show ?thesis
      using h z c by (simp add: unicode_escape_def)
  next
    case plain
    then have "c \<noteq> CHR 0x22" "c \<noteq> CHR 0x5C"
      by auto
    moreover have "quote_char c = [c]"
      using plain by (simp add: quote_char_def Let_def)
    ultimately show ?thesis
      using plain(1) by simp
  qed
qed

lemma parse_chars_quoted:
  "parse_chars (concat (map quote_char str) @ CHR 0x22 # r) = Some (str, r)"
proof (induction str)
  case Nil
  show ?case by simp
next
  case (Cons c str)
  then show ?case
    by (simp add: parse_chars_quote_char del: parse_chars.simps)
qed

lemma QuoteJSONString_delimited:
  assumes "QuoteJSONString a @ r = QuoteJSONString b @ r'"
  shows "a = b \<and> r = r'"
proof -
  from assms have "concat (map quote_char a) @ CHR 0x22 # r = concat (map quote_char b) @ CHR 0x22 # r'"
    by (simp add: QuoteJSONString_def)
  then have "parse_chars (concat (map quote_char a) @ CHR 0x22 # r) =
      parse_chars (concat (map quote_char b) @ CHR 0x22 # r')"
    by simp
  then show ?thesis
    by (simp only: parse_chars_quoted) simp
qed

lemma show_number_delimited:
  assumes "show_number a @ c # r = show_number b @ d # r'" and "\<not> is_digit c" and "\<not> is_digit d"
  shows "a = b \<and> c # r = d # r'"
  using show_int_delimited [of "sint a" c r "sint b" d r'] assms
  by (auto simp: show_number_def intro: signed_word_eqI)

lemma stringify_entry_delimited:
  assumes "stringify_entry e @ r = stringify_entry e' @ r'"
  shows "e = e' \<and> r = r'"
proof -
  have comma: "\<not> is_digit (CHR '','')"
    by (simp add: is_digit_def)
  from assms have \<open>show_number (time e) @ CHR '','' # (''"message":'' @ QuoteJSONString (message e) @ ''}'' @ r)
      = show_number (time e') @ CHR '','' # (''"message":'' @ QuoteJSONString (message e') @ ''}'' @ r')\<close>
    by (simp add: stringify_entry_def)
  from show_number_delimited [OF this comma comma]
  have t: "time e = time e'"
    and "QuoteJSONString (message e) @ ''}'' @ r = QuoteJSONString (message e') @ ''}'' @ r'"
    by simp_all
  from QuoteJSONString_delimited [OF this(2)] have "message e = message e'" and "r = r'"
    by simp_all
  with t show ?thesis by simp
qed

lemma stringify_entry_head: "\<exists>cs. stringify_entry e = CHR ''{'' # cs"
  by (simp add: stringify_entry_def)

lemma sep_concat_Cons:
  "sep_concat sep (x # xs) = x @ (if xs = [] then [] else sep @ sep_concat sep xs)"
  by (cases xs) simp_all

lemma entries_inj:
  "sep_concat '','' (map stringify_entry es) @ '']'' = sep_concat '','' (map stringify_entry es') @ '']''
   \<Longrightarrow> es = es'"
proof (induction es arbitrary: es')
  case Nil
  show ?case
  proof (cases es')
    case (Cons e' es'')
    obtain cs where "stringify_entry e' = CHR ''{'' # cs"
      using stringify_entry_head by blast
    with Nil Cons show ?thesis
      by (simp add: sep_concat_Cons)
  qed simp
next
  case (Cons e es)
  show ?case
  proof (cases es')
    case Nil
    obtain cs where "stringify_entry e = CHR ''{'' # cs"
      using stringify_entry_head by blast
    with Cons.prems Nil show ?thesis
      by (simp add: sep_concat_Cons)
  next
    case (Cons e' es'')
    let ?tail = "\<lambda>xs. (if xs = [] then [] else '','' @ sep_concat '','' (map stringify_entry xs)) @ '']''"
    from Cons.prems Cons have "stringify_entry e @ ?tail es = stringify_entry e' @ ?tail es''"
      by (simp add: sep_concat_Cons)
    from stringify_entry_delimited [OF this] have e: "e = e'" and t: "?tail es = ?tail es''"
      by simp_all
    from t have "sep_concat '','' (map stringify_entry es) @ '']''
        = sep_concat '','' (map stringify_entry es'') @ '']''"
      using stringify_entry_head by (auto split: if_splits simp: sep_concat_Cons neq_Nil_conv)
    from Cons.IH [OF this] e Cons show ?thesis by simp
  qed
qed

lemma JSON_stringify_inj: "JSON_stringify es = JSON_stringify es' \<Longrightarrow> es = es'"
  using entries_inj [of es es'] by (simp add: JSON_stringify_def)

section \<open>The claims\<close>

text \<open>
  C1. The claim: for every script body, whether it and the awaited specification run complete
  normally or raise, the run driver calls \<^verbatim>\<open>resume()\<close> exactly once as its last action, and
  every failure is captured into the error slot instead of propagating. The handoff is as
  claimed (\<open>run_driver_resumes_once\<close>). The capture is not: for the body \<^verbatim>\<open>throw null\<close> the
  \<^verbatim>\<open>catch\<close> block itself raises on \<^verbatim>\<open>e.message\<close>, so that the driver's promise is rejected with
  a \<^verbatim>\<open>TypeError\<close> and the error slot keeps the value it had.
\<close>

theorem run_driver_throw_null:
  "run_driver E [Throw JNull] specs s =
     (Rejected (TypeError E (ReadOfNullish JNull ''message'')), resume s)
   \<and> internalError (snd (run_driver E [Throw JNull] specs s)) = internalError s
   \<and> internalError (snd (run_driver E [Throw JNull] specs init)) = JNull"
  by (simp add: run_driver_def try_block_def read_message_def resume_def init_def)



text \<open>
  C3. The claim: for a payload that fails to parse, the handler is never called, the failure is
  propagated, and exactly one handoff still results. \<^verbatim>\<open>JSON.parse\<close> is called before the
  \<^verbatim>\<open>try\<close>, so its failure leaves the function before the \<^verbatim>\<open>finally\<close> is in force: there is
  no handoff. At the payload \<^verbatim>\<open>{"value":\<close> the number of handoffs is 0, not 1.
\<close>

theorem doCallback_malformed_counterexample:
  \<open>JSON_parse example_engine ''{"value":'' = None
   \<and> resumes (trace (snd (doCallback example_engine example_handlers ''{"value":''
        (registerCallback (Handler 0) init)))) = 0\<close>
  by code_simp

text \<open>
  C3, amended. For a payload that fails to parse, the delivery rejects its promise with the
  \<^verbatim>\<open>SyntaxError\<close> and leaves the state as it was: the handler is not called, and there is no
  handoff.
\<close>

theorem doCallback_malformed:
  assumes "JSON_parse E payload = None"
  shows "doCallback E H payload s = (Rejected (SyntaxError E (BadJSON payload)), s)
    \<and> calls (trace (snd (doCallback E H payload s))) = calls (trace s)
    \<and> resumes (trace (snd (doCallback E H payload s))) = resumes (trace s)"
  using assms by (simp add: doCallback_def)

theorem doCallback_malformed_witness:
  \<open>JSON_parse example_engine ''{"value":'' = None
   \<and> doCallback example_engine example_handlers ''{"value":'' (registerCallback (Handler 0) init)
       = (Rejected (SyntaxError example_engine (BadJSON ''{"value":'')),
          registerCallback (Handler 0) init)\<close>
proof -
  have p: \<open>JSON_parse example_engine ''{"value":'' = None\<close>
    by code_simp
  show ?thesis
    using doCallback_malformed [OF p, of example_handlers "registerCallback (Handler 0) init"] p
    by simp
qed

text \<open>
  C4. The claim: for every finite sequence of \<^verbatim>\<open>log\<close> calls the serialized buffer holds the
  entries in call order, the message of each the join of that call's arguments with one space.
  A call has no entry when its arguments cannot be joined: \<^verbatim>\<open>log(v)\<close> for \<open>v\<close> the object
  \<^verbatim>\<open>{"toString":1}\<close> throws a \<^verbatim>\<open>TypeError\<close> before the \<^verbatim>\<open>push\<close>, and the document is \<^verbatim>\<open>[]\<close>.
\<close>

theorem serializeLogs_call_order_counterexample:
  "log example_engine 1 [JObj [(''toString'', JNum 1)]] init =
     Inl (TypeError example_engine ObjectToPrimitive)
   \<and> internalLogs (log_calls example_engine [(1, [JObj [(''toString'', JNum 1)]])] init) = []
   \<and> fst (getInternalLogs (log_calls example_engine [(1, [JObj [(''toString'', JNum 1)]])] init))
       = ''[]''"
  by (simp add: log_def join_def init_def getInternalLogs_def JSON_stringify_def)

text \<open>
  C4, amended. After the \<^verbatim>\<open>log\<close> calls \<open>cs\<close> the buffer is the one before followed by one entry
  for each call whose arguments can be joined, in the order of the calls: its time is the clock
  reading of the call, its message the join of the call's arguments with one space. When the
  arguments of every call can be joined, that is one entry for each call. A call whose
  arguments cannot be joined throws a \<^verbatim>\<open>TypeError\<close> and appends nothing.
  \<^verbatim>\<open>__getInternalLogs\<close> returns the serialization of the buffer, and buffers with the same
  serialization are the same; it leaves the state as it was, and \<open>n\<close> calls in a row return
  \<open>n\<close> times the same document.
\<close>

theorem serializeLogs_call_order:
  "internalLogs (log_calls E cs s) =
     internalLogs s @
       List.map_filter (\<lambda>c. map_option (\<lambda>m. \<lparr>time = fst c, message = m\<rparr>) (join '' '' (snd c))) cs
   \<and> ((\<forall>c \<in> set cs. join '' '' (snd c) \<noteq> None) \<longrightarrow>
        internalLogs (log_calls E cs s) =
          internalLogs s @ map (\<lambda>c. \<lparr>time = fst c, message = the (join '' '' (snd c))\<rparr>) cs)
   \<and> (join '' '' messages = None \<longrightarrow> log E now messages s = Inl (TypeError E ObjectToPrimitive))
   \<and> fst (getInternalLogs (log_calls E cs s)) = JSON_stringify (internalLogs (log_calls E cs s))
   \<and> (fst (getInternalLogs s) = fst (getInternalLogs s') \<longrightarrow> internalLogs s = internalLogs s')
   \<and> snd (getInternalLogs s) = s
   \<and> serialize_times n s = (replicate n (fst (getInternalLogs s)), s)"
proof -
  let ?entry = "\<lambda>c. map_option (\<lambda>m. \<lparr>time = fst c, message = m\<rparr>) (join '' '' (snd c))"
  have e: "entry_of = ?entry"
    by (rule ext) (simp add: entry_of_def)
  have order: "internalLogs (log_calls E cs s) = internalLogs s @ List.map_filter ?entry cs"
    using log_calls_logs [of E cs s] by (simp only: e)
  have "(\<forall>c \<in> set cs. join '' '' (snd c) \<noteq> None) \<longrightarrow>
      List.map_filter ?entry cs = map (\<lambda>c. \<lparr>time = fst c, message = the (join '' '' (snd c))\<rparr>) cs"
    by (induction cs) (auto simp: List.map_filter_simps)
  with order have every: "(\<forall>c \<in> set cs. join '' '' (snd c) \<noteq> None) \<longrightarrow>
        internalLogs (log_calls E cs s) =
          internalLogs s @ map (\<lambda>c. \<lparr>time = fst c, message = the (join '' '' (snd c))\<rparr>) cs"
    by simp
  have throws: "join '' '' messages = None \<longrightarrow> log E now messages s = Inl (TypeError E ObjectToPrimitive)"
    by (simp add: log_def)
  have doc: "fst (getInternalLogs (log_calls E cs s)) = JSON_stringify (internalLogs (log_calls E cs s))"
    by (simp add: getInternalLogs_def)
  have inj: "fst (getInternalLogs s) = fst (getInternalLogs s') \<longrightarrow> internalLogs s = internalLogs s'"
    using JSON_stringify_inj [of "internalLogs s" "internalLogs s'"]
    by (simp add: getInternalLogs_def)
  have pure: "snd (getInternalLogs s) = s"
    "serialize_times n s = (replicate n (fst (getInternalLogs s)), s)"
    by (simp_all add: serialize_times_pure getInternalLogs_def)
  from order every throws doc inj pure show ?thesis by blast
qed

theorem serializeLogs_call_order_witness:
  \<open>join '' '' [JStr ''a''] = Some ''a'' \<and> join '' '' [JStr ''b'', JNum 7] = Some ''b 7''
   \<and> join '' '' [JObj [(''toString'', JNum 1)]] = None
   \<and> fst (getInternalLogs (log_calls example_engine
        [(1, [JStr ''a'']), (3, [JObj [(''toString'', JNum 1)]]), (2, [JStr ''b'', JNum 7])] init)) =
       ''[{"time":1,"message":"a"},{"time":2,"message":"b 7"}]''
   \<and> fst (getInternalLogs (log_calls example_engine [(1, [JStr ''a'']), (2, [JStr ''b'', JNum 7])] init)) =
       ''[{"time":1,"message":"a"},{"time":2,"message":"b 7"}]''
   \<and> internalLogs (log_calls example_engine
        [(1, [JStr ''a'']), (3, [JObj [(''toString'', JNum 1)]]), (2, [JStr ''b'', JNum 7])] init) =
       internalLogs (log_calls example_engine [(1, [JStr ''a'']), (2, [JStr ''b'', JNum 7])] init)\<close>
proof -
  let ?cs = "[(1, [JStr ''a'']), (2, [JStr ''b'', JNum 7])] :: (number \<times> jsval list) list"
  let ?ds = "[(1, [JStr ''a'']), (3, [JObj [(''toString'', JNum 1)]]), (2, [JStr ''b'', JNum 7])]
    :: (number \<times> jsval list) list"
  let ?s = "log_calls example_engine ?cs init"
  let ?t = "log_calls example_engine ?ds init"
  have all: "join '' '' [JStr ''a''] = Some ''a''" "join '' '' [JStr ''b'', JNum 7] = Some ''b 7''"
    by code_simp+
  have none: "join '' '' [JObj [(''toString'', JNum 1)]] = None"
    by code_simp
  have ds: \<open>fst (getInternalLogs ?t) = ''[{"time":1,"message":"a"},{"time":2,"message":"b 7"}]''\<close>
    by code_simp
  have cs: \<open>fst (getInternalLogs ?s) = ''[{"time":1,"message":"a"},{"time":2,"message":"b 7"}]''\<close>
    by code_simp
  have same: "fst (getInternalLogs ?t) = fst (getInternalLogs ?s)"
    using ds cs by simp
  have "fst (getInternalLogs ?t) = fst (getInternalLogs ?s) \<longrightarrow> internalLogs ?t = internalLogs ?s"
    using serializeLogs_call_order [where s = ?t and s' = ?s] by blast
  with same have "internalLogs ?t = internalLogs ?s"
    by blast
  with all none ds cs show ?thesis
    by blast
qed

text \<open>
  C5. The claim: after a body that makes some \<^verbatim>\<open>log\<close> calls and then throws, the error slot
  holds the message of what was thrown and the buffer holds what was logged. The buffer does;
  the error slot does not when the body throws \<^verbatim>\<open>null\<close> or \<^verbatim>\<open>undefined\<close>: as for C1, the
  \<^verbatim>\<open>catch\<close> block raises on \<^verbatim>\<open>e.message\<close>, the slot keeps its \<^verbatim>\<open>null\<close> and the driver's promise
  is rejected. For every other thrown value the slot holds \<^verbatim>\<open>e.message\<close>
  (\<open>run_driver_captures\<close>). Here the body is \<^verbatim>\<open>log("a"); throw null\<close>.
\<close>

theorem run_driver_log_throw_null:
  "run_driver E [Log 1 [JStr ''a''], Throw JNull] specs init =
     (Rejected (TypeError E (ReadOfNullish JNull ''message'')),
      \<lparr>internalLogs = [\<lparr>time = 1, message = ''a''\<rparr>], internalError = JNull, console = JNull,
       callback = DefaultNoop, trace = [EvResume]\<rparr>)"
  by (simp add: run_driver_def try_block_def read_message_def resume_def init_def log_def join_def)




text \<open>
  C7. One completion by the host, with \<open>(result, error)\<close>: when \<open>error\<close> is a failure (a truthy
  value), the promise of \<^verbatim>\<open>exec\<close> is rejected with \<open>error\<close> itself; when there is none (a falsy
  value), it is fulfilled with \<open>result\<close>. The call reaches the host once, with the two arguments
  as given.
\<close>

theorem exec_settles:
  "(truthy error \<longrightarrow> fst (exec requestId envName [(result, error)] s) = Rejected error)
   \<and> (\<not> truthy error \<longrightarrow> fst (exec requestId envName [(result, error)] s) = Fulfilled result)
   \<and> trace (snd (exec requestId envName [(result, error)] s)) = trace s @ [EvExec requestId envName]"
  by (simp add: onComplete_def exec_def resolve_def reject_def)

theorem exec_settles_witness:
  "truthy (JStr ''timeout'')
   \<and> fst (exec (JNum 1) (JStr ''env1'') [(JUndefined, JStr ''timeout'')] init)
       = Rejected (JStr ''timeout'')
   \<and> \<not> truthy JNull
   \<and> fst (exec (JNum 1) (JStr ''env1'') [(JObj [(''status'', JNum 200)], JNull)] init)
       = Fulfilled (JObj [(''status'', JNum 200)])"
  using exec_settles [of "JStr ''timeout''" "JNum 1" "JStr ''env1''" JUndefined init]
    exec_settles [of JNull "JNum 1" "JStr ''env1''" "JObj [(''status'', JNum 200)]" init]
  by simp

text \<open>
  C8. The claim: during a run the console is bound to an inert value, so that a script's use of
  it has no effect: it does not raise and prints nothing. The binding is \<^verbatim>\<open>null\<close>, and a
  method call on \<^verbatim>\<open>null\<close> raises: the body \<^verbatim>\<open>console.log(...); log("after")\<close> ends at its
  first statement with a \<^verbatim>\<open>TypeError\<close>, and nothing is logged.
\<close>

theorem console_call_counterexample:
  "run_body example_engine [ConsoleCall ''log'', Log 5 [JStr ''after'']] init =
     (Thrown (TypeError example_engine (ReadOfNullish JNull ''log'')), init)"
  by (simp add: init_def method_call_error_def)

text \<open>
  C8, amended. During a run the console is bound to \<^verbatim>\<open>null\<close>: the prelude sets it so, and
  neither a run nor a delivery changes it. A script's call of a console method raises a
  \<^verbatim>\<open>TypeError\<close> and does nothing else: the state of the harness, with the log buffer and the
  events the host has seen, is as before, and the rest of the body does not run. When the body
  had come as far as the console call, the run driver stores the message of that error in
  the error slot, keeps what the body did before, and hands over. A body without \<^verbatim>\<open>log\<close> calls
  leaves the log buffer as it was: what reaches the host's buffer goes through \<^verbatim>\<open>log\<close>.
\<close>

theorem console_is_null:
  "console init = JNull
   \<and> console (snd (run_driver E body specs s)) = console s
   \<and> console (snd (doCallback E H p s)) = console s
   \<and> (console s = JNull \<longrightarrow>
        run_body E (ConsoleCall m # rest) s = (Thrown (TypeError E (ReadOfNullish JNull m)), s))
   \<and> (console s = JNull \<and> run_body E pre s = (Done, s1) \<longrightarrow>
        run_driver E (pre @ ConsoleCall m # rest) specs s =
          (Fulfilled JUndefined,
           resume (s1\<lparr>internalError := JStr (message_of E (ReadOfNullish JNull m))\<rparr>)))
   \<and> (no_log as \<longrightarrow> internalLogs (snd (run_body E as s)) = internalLogs s)"
proof -
  have a: "console init = JNull"
    by (simp add: init_def)
  have b: "console s = JNull \<longrightarrow>
        run_body E (ConsoleCall m # rest) s = (Thrown (TypeError E (ReadOfNullish JNull m)), s)"
    by (simp add: method_call_error_def)
  have c: "console s = JNull \<and> run_body E pre s = (Done, s1) \<longrightarrow>
        run_driver E (pre @ ConsoleCall m # rest) specs s =
          (Fulfilled JUndefined,
           resume (s1\<lparr>internalError := JStr (message_of E (ReadOfNullish JNull m))\<rparr>))"
  proof
    assume h: "console s = JNull \<and> run_body E pre s = (Done, s1)"
    then have "console s1 = JNull"
      using run_body_console [of E pre s] by simp
    with h show "run_driver E (pre @ ConsoleCall m # rest) specs s =
          (Fulfilled JUndefined,
           resume (s1\<lparr>internalError := JStr (message_of E (ReadOfNullish JNull m))\<rparr>))"
      by (simp add: run_driver_def try_block_def run_body_append method_call_error_def
          TypeError_def read_message_def)
  qed
  have d: "no_log as \<longrightarrow> internalLogs (snd (run_body E as s)) = internalLogs s"
    by (simp add: run_body_no_log)
  from a b c d run_driver_console doCallback_console show ?thesis by blast
qed

theorem console_is_null_witness:
  "console init = JNull
   \<and> run_body example_engine [Log 3 [JStr ''before'']] init =
       (Done, init\<lparr>internalLogs := [\<lparr>time = 3, message = ''before''\<rparr>]\<rparr>)
   \<and> no_log [ConsoleCall ''log'']
   \<and> run_driver example_engine ([Log 3 [JStr ''before'']] @ ConsoleCall ''log'' # [Log 5 [JStr ''after'']])
        [] init =
       (Fulfilled JUndefined,
        \<lparr>internalLogs = [\<lparr>time = 3, message = ''before''\<rparr>],
         internalError = JStr (message_of example_engine (ReadOfNullish JNull ''log'')),
         console = JNull, callback = DefaultNoop, trace = [EvResume]\<rparr>)"
proof -
  have a: "console init = JNull"
    by (simp add: init_def)
  have p: "run_body example_engine [Log 3 [JStr ''before'']] init =
       (Done, init\<lparr>internalLogs := [\<lparr>time = 3, message = ''before''\<rparr>]\<rparr>)"
    by (simp add: log_def join_def init_def)
  have n: "no_log [ConsoleCall ''log'']"
    by (simp add: no_log_def)
  note t = console_is_null [where s = init and E = example_engine and pre = "[Log 3 [JStr ''before'']]"
      and ?s1.0 = "init\<lparr>internalLogs := [\<lparr>time = 3, message = ''before''\<rparr>]\<rparr>"
      and m = "''log''" and rest = "[Log 5 [JStr ''after'']]" and specs = "[]",
      THEN conjunct2, THEN conjunct2, THEN conjunct2, THEN conjunct2, THEN conjunct1]
  show ?thesis
    using t a p n by (simp add: init_def resume_def)
qed

text \<open>
  C9. The completion callback rejects exactly when its failure argument is truthy. With
  \<^verbatim>\<open>null\<close>, \<^verbatim>\<open>undefined\<close>, \<^verbatim>\<open>0\<close>, the empty string or \<^verbatim>\<open>false\<close> as the failure, the promise is
  fulfilled with the result, whatever the result is.
\<close>

theorem onComplete_truthiness:
  "onComplete result error Pending = (if truthy error then Rejected error else Fulfilled result)
   \<and> fst (exec requestId envName [(result, JNull)] s) = Fulfilled result
   \<and> fst (exec requestId envName [(result, JUndefined)] s) = Fulfilled result
   \<and> fst (exec requestId envName [(result, JNum 0)] s) = Fulfilled result
   \<and> fst (exec requestId envName [(result, JStr [])] s) = Fulfilled result
   \<and> fst (exec requestId envName [(result, JBool False)] s) = Fulfilled result"
  by (simp add: onComplete_def exec_def resolve_def reject_def)

text \<open>
  C10. The claim: the run driver stores only \<^verbatim>\<open>e.message\<close>, so that for a thrown value without
  a \<^verbatim>\<open>message\<close> property the error slot is set to an absent value and the host cannot tell the
  failed run from a successful one by the error slot. The slot is \<^verbatim>\<open>undefined\<close> after the body
  \<^verbatim>\<open>throw "boom"\<close> and \<^verbatim>\<open>null\<close>, as the prelude left it, after the empty body: the two values
  differ.
\<close>

theorem run_driver_message_only_counterexample:
  "internalError (snd (run_driver example_engine [Throw (JStr ''boom'')] [] init)) = JUndefined
   \<and> internalError (snd (run_driver example_engine [] [] init)) = JNull
   \<and> internalError (snd (run_driver example_engine [Throw (JStr ''boom'')] [] init))
       \<noteq> internalError (snd (run_driver example_engine [] [] init))"
  by (simp add: run_driver_def try_block_def read_message_def resume_def init_def)

text \<open>
  C10, amended. Of a thrown value \<open>e\<close> other than \<^verbatim>\<open>null\<close> and \<^verbatim>\<open>undefined\<close> the run driver
  stores \<^verbatim>\<open>e.message\<close> in the error slot and nothing else; the rest of the state is as the body
  left it. A string and a number have no \<^verbatim>\<open>message\<close>. When \<open>e\<close> has none, the slot is
  \<^verbatim>\<open>undefined\<close> after the run, while after a run that passed it is still the \<^verbatim>\<open>null\<close> of the
  prelude: the two values differ, but both are absent values and both are falsy, and both runs
  fulfil the driver's promise after one handoff. A host that tests the slot for a message
  finds none in either case; a host that compares the value can tell the runs apart.
\<close>

theorem run_driver_message_only:
  assumes failed: "try_block E body specs s = (Thrown e, s1)"
    and thrown: "\<not> nullish e"
    and passed: "try_block E body' specs' s = (Done, s2)"
    and fresh: "internalError s = JNull"
  shows "snd (run_driver E body specs s) = resume (s1\<lparr>internalError := message_prop e\<rparr>)
    \<and> internalError (snd (run_driver E body specs s)) = message_prop e
    \<and> internalError (snd (run_driver E body' specs' s)) = JNull
    \<and> message_prop (JStr str) = JUndefined \<and> message_prop (JNum k) = JUndefined
    \<and> (message_prop e = JUndefined \<longrightarrow>
         internalError (snd (run_driver E body specs s)) = JUndefined
         \<and> internalError (snd (run_driver E body specs s))
             \<noteq> internalError (snd (run_driver E body' specs' s))
         \<and> nullish (internalError (snd (run_driver E body specs s)))
         \<and> nullish (internalError (snd (run_driver E body' specs' s)))
         \<and> truthy (internalError (snd (run_driver E body specs s)))
             = truthy (internalError (snd (run_driver E body' specs' s)))
         \<and> fst (run_driver E body specs s) = fst (run_driver E body' specs' s))
    \<and> resumes (trace (snd (run_driver E body specs s))) = resumes (trace s) + 1
    \<and> resumes (trace (snd (run_driver E body' specs' s))) = resumes (trace s) + 1"
proof -
  have f: "run_driver E body specs s =
      (Fulfilled JUndefined, resume (s1\<lparr>internalError := message_prop e\<rparr>))"
    using run_driver_captures [OF failed thrown] .
  have p: "run_driver E body' specs' s = (Fulfilled JUndefined, resume s2)"
    using run_driver_success [OF passed] by simp
  have "internalError s2 = internalError s"
    using try_block_frame [of E body' specs' s] passed by simp
  with fresh have e2: "internalError s2 = JNull"
    by simp
  have r: "resumes (trace (snd (run_driver E body specs s))) = resumes (trace s) + 1"
    using run_driver_resumes_once [of E body specs s] failed by simp
  have r': "resumes (trace (snd (run_driver E body' specs' s))) = resumes (trace s) + 1"
    using run_driver_resumes_once [of E body' specs' s] passed by simp
  show ?thesis
    using f p e2 r r' by (simp add: resume_def)
qed

theorem run_driver_message_only_witness:
  "try_block example_engine [Throw (JStr ''boom'')] [] init = (Thrown (JStr ''boom''), init)
   \<and> \<not> nullish (JStr ''boom'') \<and> message_prop (JStr ''boom'') = JUndefined
   \<and> try_block example_engine [] [] init = (Done, init)
   \<and> internalError init = JNull
   \<and> internalError (snd (run_driver example_engine [Throw (JStr ''boom'')] [] init)) = JUndefined
   \<and> nullish (internalError (snd (run_driver example_engine [Throw (JStr ''boom'')] [] init)))
   \<and> nullish (internalError (snd (run_driver example_engine [] [] init)))
   \<and> fst (run_driver example_engine [Throw (JStr ''boom'')] [] init)
       = fst (run_driver example_engine [] [] init)"
proof -
  have f: "try_block example_engine [Throw (JStr ''boom'')] [] init = (Thrown (JStr ''boom''), init)"
    by (simp add: try_block_def)
  have v: "\<not> nullish (JStr ''boom'')" and m: "message_prop (JStr ''boom'') = JUndefined"
    by simp_all
  have p: "try_block example_engine [] [] init = (Done, init)"
    by (simp add: try_block_def)
  have i: "internalError init = JNull"
    by (simp add: init_def)
  note t = run_driver_message_only [OF f v p i, THEN conjunct2]
  show ?thesis
    using t f v m p i by simp
qed

end
